theory Spec2Isabelle
  imports Main
begin

section \<open>The JavaScript values the hooks handle\<close>

text \<open>
  The repository is two React hooks and a provider around \<^verbatim>\<open>localStorage\<close>. Its own logic is
  \<^verbatim>\<open>parseString\<close> and the three closures of \<^verbatim>\<open>useStorage\<close>; everything else
  (\<^verbatim>\<open>String\<close>, \<^verbatim>\<open>parseFloat\<close>, \<^verbatim>\<open>JSON.parse\<close>, \<^verbatim>\<open>isNaN\<close>, \<^verbatim>\<open>Object.is\<close>,
  \<^verbatim>\<open>localStorage\<close>) is the platform, modelled here after ECMAScript for the values
  that can reach the hooks.

  Strings are lists of 8-bit characters. Numbers are modelled by the decimal that
  \<^verbatim>\<open>Number::toString\<close> prints for them: \<open>Dec m e\<close> stands for \<open>m * 10 ^ e\<close>, kept
  with \<open>m\<close> not divisible by ten (zero is \<open>Dec 0 0\<close>). A literal is read exactly: the
  rounding of a literal to the nearest double is not modelled, and the two zeros of
  IEEE arithmetic, which \<^verbatim>\<open>==\<close> and \<^verbatim>\<open>String\<close> do not tell apart, are one value.
\<close>

datatype jsnum = NaN | PosInfinity | NegInfinity | Dec int int

function strip10 :: "int \<Rightarrow> int \<Rightarrow> int \<times> int" where
  "strip10 m e = (if m \<noteq> 0 \<and> m mod 10 = 0 then strip10 (m div 10) (e + 1) else (m, e))"
  by pat_completeness auto
termination
  by (relation "measure (\<lambda>(m, e). nat \<bar>m\<bar>)") auto

definition number :: "int \<Rightarrow> int \<Rightarrow> jsnum" where
  "number m e = (if m = 0 then Dec 0 0 else case strip10 m e of (m', e') \<Rightarrow> Dec m' e')"

definition isNaN :: "jsnum \<Rightarrow> bool" where
  "isNaN x = (x = NaN)"

definition isFinite :: "jsnum \<Rightarrow> bool" where
  "isFinite x = (case x of Dec m e \<Rightarrow> True | _ \<Rightarrow> False)"

subsection \<open>Decimal digits\<close>

definition is_digit :: "char \<Rightarrow> bool" where
  "is_digit c = (48 \<le> (of_char c :: nat) \<and> (of_char c :: nat) \<le> 57)"

definition digit_val :: "char \<Rightarrow> nat" where
  "digit_val c = of_char c - 48"

definition digit_char :: "nat \<Rightarrow> char" where
  "digit_char d = char_of (48 + d)"

definition nat_of_digits :: "string \<Rightarrow> nat" where
  "nat_of_digits ds = foldl (\<lambda>a c. 10 * a + digit_val c) 0 ds"

function digits_of_nat :: "nat \<Rightarrow> string" where
  "digits_of_nat n = (if n < 10 then [digit_char n] else digits_of_nat (n div 10) @ [digit_char (n mod 10)])"
  by pat_completeness auto
termination
  by (relation "measure id") auto

subsection \<open>\<^verbatim>\<open>Number::toString\<close>\<close>

text \<open>
  ECMAScript's \<^verbatim>\<open>Number::toString\<close> in radix ten: with \<open>k\<close> digits \<open>s\<close> and
  \<open>n\<close> the position of the decimal point, the number is \<open>s * 10 ^ (n - k)\<close>; it is
  printed plainly for \<open>-6 < n \<le> 21\<close> and in exponent notation otherwise.
\<close>

definition exponent_suffix :: "int \<Rightarrow> string" where
  "exponent_suffix x =
     CHR ''e'' # (if x < 0 then CHR ''-'' else CHR ''+'') # digits_of_nat (nat \<bar>x\<bar>)"

definition format_digits :: "string \<Rightarrow> int \<Rightarrow> string" where
  "format_digits ds n =
     (let k = int (length ds) in
      if k \<le> n \<and> n \<le> 21 then ds @ replicate (nat (n - k)) CHR ''0''
      else if 0 < n \<and> n \<le> 21 then take (nat n) ds @ CHR ''.'' # drop (nat n) ds
      else if -6 < n \<and> n \<le> 0 then ''0.'' @ replicate (nat (- n)) CHR ''0'' @ ds
      else if k = 1 then ds @ exponent_suffix (n - 1)
      else take 1 ds @ CHR ''.'' # drop 1 ds @ exponent_suffix (n - 1))"

definition Number_toString :: "jsnum \<Rightarrow> string" where
  "Number_toString x =
     (case x of
        NaN \<Rightarrow> ''NaN''
      | PosInfinity \<Rightarrow> ''Infinity''
      | NegInfinity \<Rightarrow> ''-Infinity''
      | Dec m e \<Rightarrow>
          if m = 0 then ''0''
          else case strip10 m e of (s, e') \<Rightarrow>
            let ds = digits_of_nat (nat \<bar>s\<bar>);
                body = format_digits ds (e' + int (length ds))
            in if s < 0 then CHR ''-'' # body else body)"

subsection \<open>\<^verbatim>\<open>parseFloat\<close>\<close>

text \<open>
  \<^verbatim>\<open>parseFloat\<close> drops leading white space and reads the longest prefix that is a
  \<^verbatim>\<open>StrDecimalLiteral\<close>: a sign, then \<^verbatim>\<open>Infinity\<close> or digits with an optional
  fraction and an optional exponent. What follows the prefix is ignored; with no
  such prefix the result is \<open>NaN\<close>.
\<close>

definition is_StrWhiteSpaceChar :: "char \<Rightarrow> bool" where
  "is_StrWhiteSpaceChar c = (of_char c \<in> {9, 10, 11, 12, 13, 32, 160 :: nat})"

definition scan_sign :: "string \<Rightarrow> bool \<times> string" where
  "scan_sign cs =
     (case cs of
        [] \<Rightarrow> (False, [])
      | c # rest \<Rightarrow>
          if c = CHR ''-'' then (True, rest)
          else if c = CHR ''+'' then (False, rest)
          else (False, cs))"

definition scan_exponent :: "string \<Rightarrow> int \<times> string" where
  "scan_exponent cs =
     (case cs of
        [] \<Rightarrow> (0, cs)
      | c # rest \<Rightarrow>
          if c = CHR ''e'' \<or> c = CHR ''E'' then
            (case scan_sign rest of (neg, ds) \<Rightarrow>
               if takeWhile is_digit ds = [] then (0, cs)
               else ((if neg then - 1 else 1) * int (nat_of_digits (takeWhile is_digit ds)),
                     dropWhile is_digit ds))
          else (0, cs))"

definition scan_fraction :: "string \<Rightarrow> string \<times> string" where
  "scan_fraction cs =
     (case cs of
        [] \<Rightarrow> ([], cs)
      | c # rest \<Rightarrow>
          if c = CHR ''.'' then (takeWhile is_digit rest, dropWhile is_digit rest)
          else ([], cs))"

definition StrUnsignedDecimalLiteral :: "bool \<Rightarrow> string \<Rightarrow> jsnum" where
  "StrUnsignedDecimalLiteral neg rest =
     (if take 8 rest = ''Infinity'' then (if neg then NegInfinity else PosInfinity)
      else
        let ip = takeWhile is_digit rest in
        case scan_fraction (dropWhile is_digit rest) of (fp, rest') \<Rightarrow>
          if ip = [] \<and> fp = [] then NaN
          else number ((if neg then - 1 else 1) * int (nat_of_digits (ip @ fp)))
                      (fst (scan_exponent rest') - int (length fp)))"

definition parseFloat :: "string \<Rightarrow> jsnum" where
  "parseFloat input =
     (case scan_sign (dropWhile is_StrWhiteSpaceChar input) of
        (neg, rest) \<Rightarrow> StrUnsignedDecimalLiteral neg rest)"

subsection \<open>Values and \<^verbatim>\<open>String\<close>\<close>

text \<open>
  The values that pass through the hooks: \<^verbatim>\<open>undefined\<close>, \<^verbatim>\<open>null\<close>, booleans,
  numbers, strings, arrays and plain objects. A plain object is the list of its
  properties in insertion order.
\<close>

datatype jsvalue =
    JUndefined
  | JNull
  | JBoolean bool
  | JNumber jsnum
  | JString string
  | JArray "jsvalue list"
  | JObject "(string \<times> jsvalue) list"

definition typeof :: "jsvalue \<Rightarrow> string" where
  "typeof v =
     (case v of
        JUndefined \<Rightarrow> ''undefined''
      | JNull \<Rightarrow> ''object''
      | JBoolean b \<Rightarrow> ''boolean''
      | JNumber x \<Rightarrow> ''number''
      | JString s \<Rightarrow> ''string''
      | JArray xs \<Rightarrow> ''object''
      | JObject kvs \<Rightarrow> ''object'')"

fun join :: "string \<Rightarrow> string list \<Rightarrow> string" where
  "join sep [] = []"
| "join sep [s] = s"
| "join sep (s # t # ss) = s @ sep @ join sep (t # ss)"

text \<open>
  \<^verbatim>\<open>String(value)\<close>: the default textual conversion. An array prints its elements
  joined by commas, \<^verbatim>\<open>undefined\<close> and \<^verbatim>\<open>null\<close> elements as nothing; a plain object
  prints as \<^verbatim>\<open>[object Object]\<close>.
\<close>

fun js_String :: "jsvalue \<Rightarrow> string" where
  "js_String JUndefined = ''undefined''"
| "js_String JNull = ''null''"
| "js_String (JBoolean b) = (if b then ''true'' else ''false'')"
| "js_String (JNumber x) = Number_toString x"
| "js_String (JString s) = s"
| "js_String (JArray xs) =
     join '','' (map (\<lambda>v. if v = JUndefined \<or> v = JNull then [] else js_String v) xs)"
| "js_String (JObject kvs) = ''[object Object]''"

subsection \<open>\<^verbatim>\<open>JSON.parse\<close>\<close>

text \<open>
  \<^verbatim>\<open>JSON.parse\<close> without a reviver: the text is cut into tokens, and one value is
  read from the tokens with a stack of the arrays and objects that are still open.
  \<open>None\<close> stands for the \<^verbatim>\<open>SyntaxError\<close> that \<^verbatim>\<open>JSON.parse\<close> throws. An escape
  \<^verbatim>\<open>\uXXXX\<close> is read as the character of its low byte.
\<close>

datatype token =
    LBrace | RBrace | LBracket | RBracket | Colon | Comma
  | TString string | TNumber jsnum | TTrue | TFalse | TNull

definition is_json_ws :: "char \<Rightarrow> bool" where
  "is_json_ws c = (of_char c \<in> {9, 10, 13, 32 :: nat})"

definition hex_val :: "char \<Rightarrow> nat option" where
  "hex_val c =
     (let n = of_char c :: nat in
      if 48 \<le> n \<and> n \<le> 57 then Some (n - 48)
      else if 65 \<le> n \<and> n \<le> 70 then Some (n - 55)
      else if 97 \<le> n \<and> n \<le> 102 then Some (n - 87)
      else None)"

definition unescape :: "char \<Rightarrow> char option" where
  "unescape e =
     (if e = CHR 0x22 \<or> e = CHR 0x5C \<or> e = CHR ''/'' then Some e
      else if e = CHR ''b'' then Some (CHR 0x08)
      else if e = CHR ''f'' then Some (CHR 0x0C)
      else if e = CHR ''n'' then Some (CHR 0x0A)
      else if e = CHR ''r'' then Some (CHR 0x0D)
      else if e = CHR ''t'' then Some (CHR 0x09)
      else None)"

definition scan_escape :: "string \<Rightarrow> (char \<times> string) option" where
  "scan_escape cs =
     (case cs of
        [] \<Rightarrow> None
      | e # cs' \<Rightarrow>
          if e = CHR ''u'' then
            (case cs' of
               h1 # h2 # h3 # h4 # rest \<Rightarrow>
                 (case (hex_val h1, hex_val h2, hex_val h3, hex_val h4) of
                    (Some a, Some b, Some c, Some d) \<Rightarrow>
                      Some (char_of (((a * 16 + b) * 16 + c) * 16 + d), rest)
                  | _ \<Rightarrow> None)
             | _ \<Rightarrow> None)
          else map_option (\<lambda>ch. (ch, cs')) (unescape e))"

lemma scan_escape_shorter:
  "scan_escape cs = Some (ch, rest) \<Longrightarrow> length rest < length cs"
  by (auto simp: scan_escape_def split: list.splits option.splits if_splits)

text \<open>
  \<open>scan_string acc cs\<close> reads the characters of a string after its opening quote,
  up to the closing quote, and answers them with the text that follows.
\<close>

function scan_string :: "string \<Rightarrow> string \<Rightarrow> (string \<times> string) option" where
  "scan_string acc [] = None"
| "scan_string acc (c # cs) =
     (if c = CHR 0x22 then Some (rev acc, cs)
      else if c = CHR 0x5C then
        (case scan_escape cs of
           None \<Rightarrow> None
         | Some (ch, rest) \<Rightarrow> scan_string (ch # acc) rest)
      else if (of_char c :: nat) < 32 then None
      else scan_string (c # acc) cs)"
  by pat_completeness auto
termination
proof (relation "measure (\<lambda>(acc, cs). length cs)")
  fix acc :: string and c cs x2 ch rest
  assume "scan_escape cs = Some x2" "(ch, rest) = x2"
  then show "((ch # acc, rest), (acc, c # cs)) \<in> measure (\<lambda>(acc, cs). length cs)"
    using scan_escape_shorter [of cs ch rest] by simp
qed auto

definition scan_json_number :: "string \<Rightarrow> (jsnum \<times> string) option" where
  "scan_json_number cs =
     (let neg = (take 1 cs = ''-'');
          rest = (if neg then drop 1 cs else cs);
          ip = (if take 1 rest = ''0'' then ''0'' else takeWhile is_digit rest);
          r1 = drop (length ip) rest;
          fp = fst (scan_fraction r1);
          r2 = (if fp = [] then r1 else snd (scan_fraction r1))
      in if ip = [] then None
         else Some (number ((if neg then - 1 else 1) * int (nat_of_digits (ip @ fp)))
                           (fst (scan_exponent r2) - int (length fp)),
                    snd (scan_exponent r2)))"

lemma scan_string_shorter:
  "scan_string acc cs = Some (s, rest) \<Longrightarrow> length rest < length cs"
proof (induction acc cs rule: scan_string.induct)
  case (1 acc)
  then show ?case by simp
next
  case (2 acc c cs)
  show ?case
  proof (cases "c = CHR 0x22")
    case True
    with 2(3) show ?thesis by simp
  next
    case quote: False
    show ?thesis
    proof (cases "c = CHR 0x5C")
      case True
      with quote 2(3) obtain ch r where
        esc: "scan_escape cs = Some (ch, r)" and
        rec: "scan_string (ch # acc) r = Some (s, rest)"
        by (auto split: option.splits)
      from 2(1) [OF quote True esc refl rec] have "length rest < length r" .
      with scan_escape_shorter [OF esc] show ?thesis by simp
    next
      case False
      with quote 2(3) have ctl: "\<not> (of_char c :: nat) < 32"
        and rec: "scan_string (c # acc) cs = Some (s, rest)"
        by (auto split: if_splits)
      from 2(2) [OF quote False ctl rec] show ?thesis by simp
    qed
  qed
qed

lemma scan_fraction_length: "length (snd (scan_fraction cs)) \<le> length cs"
  by (auto simp: scan_fraction_def split: list.splits
           intro: le_trans [OF length_dropWhile_le])

lemma scan_exponent_length: "length (snd (scan_exponent cs)) \<le> length cs"
  by (auto simp: scan_exponent_def scan_sign_def split: list.splits prod.splits if_splits
           intro: le_trans [OF length_dropWhile_le])

lemma scan_json_number_shorter:
  assumes "scan_json_number cs = Some (x, rest)"
  shows "length rest < length cs"
proof -
  define rest0 where "rest0 = (if take 1 cs = ''-'' then drop 1 cs else cs)"
  define ip where "ip = (if take 1 rest0 = ''0'' then ''0'' else takeWhile is_digit rest0)"
  define r1 where "r1 = drop (length ip) rest0"
  define r2 where "r2 = (if fst (scan_fraction r1) = [] then r1 else snd (scan_fraction r1))"
  from assms have ip: "ip \<noteq> []" and rest: "rest = snd (scan_exponent r2)"
    by (auto simp: scan_json_number_def Let_def rest0_def ip_def r1_def r2_def
             split: if_splits)
  have "length ip \<le> length rest0"
    by (auto simp: ip_def length_takeWhile_le) (cases rest0; simp)
  with ip have "length r1 < length rest0"
    by (cases ip) (auto simp: r1_def)
  moreover have "length rest0 \<le> length cs"
    by (simp add: rest0_def)
  moreover have "length r2 \<le> length r1"
    by (simp add: r2_def scan_fraction_length)
  moreover have "length rest \<le> length r2"
    by (simp add: rest scan_exponent_length)
  ultimately show ?thesis by linarith
qed

function tokenize :: "string \<Rightarrow> token list option" where
  "tokenize [] = Some []"
| "tokenize (c # cs) =
     (if is_json_ws c then tokenize cs
      else if c = CHR ''{'' then map_option ((#) LBrace) (tokenize cs)
      else if c = CHR ''}'' then map_option ((#) RBrace) (tokenize cs)
      else if c = CHR ''['' then map_option ((#) LBracket) (tokenize cs)
      else if c = CHR '']'' then map_option ((#) RBracket) (tokenize cs)
      else if c = CHR '':'' then map_option ((#) Colon) (tokenize cs)
      else if c = CHR '','' then map_option ((#) Comma) (tokenize cs)
      else if c = CHR 0x22 then
        (case scan_string [] cs of
           None \<Rightarrow> None
         | Some (s, rest) \<Rightarrow> map_option ((#) (TString s)) (tokenize rest))
      else if c = CHR ''-'' \<or> is_digit c then
        (case scan_json_number (c # cs) of
           None \<Rightarrow> None
         | Some (x, rest) \<Rightarrow> map_option ((#) (TNumber x)) (tokenize rest))
      else if take 4 (c # cs) = ''true'' then map_option ((#) TTrue) (tokenize (drop 3 cs))
      else if take 5 (c # cs) = ''false'' then map_option ((#) TFalse) (tokenize (drop 4 cs))
      else if take 4 (c # cs) = ''null'' then map_option ((#) TNull) (tokenize (drop 3 cs))
      else None)"
  by pat_completeness auto
termination
proof (relation "measure length")
  fix c cs x2 x y
  assume "scan_string [] cs = Some x2" "(x, y) = x2"
  then show "(y, c # cs) \<in> measure length"
    using scan_string_shorter [of "[]" cs x y] by simp
next
  fix c cs x2 x y
  assume "scan_json_number (c # cs) = Some x2" "(x, y) = x2"
  then show "(y, c # cs) \<in> measure length"
    using scan_json_number_shorter [of "c # cs" x y] by simp
qed auto

text \<open>
  The values of an object are assigned in the order of the text; a repeated key keeps
  its place and takes the later value.
\<close>

fun assign :: "string \<Rightarrow> jsvalue \<Rightarrow> (string \<times> jsvalue) list \<Rightarrow> (string \<times> jsvalue) list" where
  "assign k v [] = [(k, v)]"
| "assign k v ((k', v') # kvs) = (if k' = k then (k, v) # kvs else (k', v') # assign k v kvs)"

datatype frame = InArray "jsvalue list" | InObject "(string \<times> jsvalue) list" string

text \<open>
  \<open>parse_value\<close> expects a value; \<open>parse_after\<close> has just read the value \<open>v\<close> and
  puts it into the innermost open array or object. With nothing open, the value is
  the result if the text ends there.
\<close>

fun parse_value :: "frame list \<Rightarrow> token list \<Rightarrow> jsvalue option"
  and parse_after :: "jsvalue \<Rightarrow> frame list \<Rightarrow> token list \<Rightarrow> jsvalue option" where
  "parse_value stack [] = None"
| "parse_value stack (t # ts) =
     (case t of
        TString s \<Rightarrow> parse_after (JString s) stack ts
      | TNumber x \<Rightarrow> parse_after (JNumber x) stack ts
      | TTrue \<Rightarrow> parse_after (JBoolean True) stack ts
      | TFalse \<Rightarrow> parse_after (JBoolean False) stack ts
      | TNull \<Rightarrow> parse_after JNull stack ts
      | LBracket \<Rightarrow>
          (case ts of
             RBracket # ts' \<Rightarrow> parse_after (JArray []) stack ts'
           | _ \<Rightarrow> parse_value (InArray [] # stack) ts)
      | LBrace \<Rightarrow>
          (case ts of
             RBrace # ts' \<Rightarrow> parse_after (JObject []) stack ts'
           | TString k # Colon # ts' \<Rightarrow> parse_value (InObject [] k # stack) ts'
           | _ \<Rightarrow> None)
      | _ \<Rightarrow> None)"
| "parse_after v [] ts = (if ts = [] then Some v else None)"
| "parse_after v (InArray acc # stack) ts =
     (case ts of
        Comma # ts' \<Rightarrow> parse_value (InArray (v # acc) # stack) ts'
      | RBracket # ts' \<Rightarrow> parse_after (JArray (rev (v # acc))) stack ts'
      | _ \<Rightarrow> None)"
| "parse_after v (InObject kvs k # stack) ts =
     (case ts of
        Comma # TString k' # Colon # ts' \<Rightarrow> parse_value (InObject (assign k v kvs) k' # stack) ts'
      | RBrace # ts' \<Rightarrow> parse_after (JObject (assign k v kvs)) stack ts'
      | _ \<Rightarrow> None)"

definition JSON_parse :: "string \<Rightarrow> jsvalue option" where
  "JSON_parse text = (case tokenize text of None \<Rightarrow> None | Some ts \<Rightarrow> parse_value [] ts)"

section \<open>The coercion routine\<close>

text \<open>
  \<^verbatim>\<open>parseString\<close> of \<^verbatim>\<open>useStorage\<close>. The \<^verbatim>\<open>try\<close> block returns the parsed value
  when it is an object other than \<^verbatim>\<open>null\<close>; a \<^verbatim>\<open>SyntaxError\<close> is caught and
  ignored. \<open>structured\<close> is that block: \<open>Some\<close> when it returns, \<open>None\<close> when
  control goes on to the checks below it.
\<close>

definition structured :: "string \<Rightarrow> jsvalue option" where
  "structured input =
     (case JSON_parse input of
        None \<Rightarrow> None
      | Some parsedObject \<Rightarrow>
          if typeof parsedObject = ''object'' \<and> parsedObject \<noteq> JNull then Some parsedObject
          else None)"

definition parseString :: "string \<Rightarrow> jsvalue" where
  "parseString input =
     (case structured input of
        Some parsedObject \<Rightarrow> parsedObject
      | None \<Rightarrow>
          let parsedNumber = parseFloat input in
          if \<not> isNaN parsedNumber then JNumber parsedNumber
          else if input = ''true'' \<or> input = ''false'' then JBoolean (input = ''true'')
          else JString input)"

section \<open>The storage hook\<close>

text \<open>
  \<^verbatim>\<open>localStorage\<close> is a map from keys to strings: \<^verbatim>\<open>getItem\<close> answers \<^verbatim>\<open>null\<close>
  (\<open>None\<close>) for a key that was never written. Failures of the backend itself (a full
  quota, denied access) are not modelled.
\<close>

type_synonym Storage = "string \<rightharpoonup> string"

definition getItem :: "Storage \<Rightarrow> string \<Rightarrow> string option" where
  "getItem ls key = ls key"

definition setItem :: "Storage \<Rightarrow> string \<Rightarrow> string \<Rightarrow> Storage" where
  "setItem ls key v = ls(key \<mapsto> v)"

text \<open>
  A value of type \<^verbatim>\<open>string | null\<close> or \<^verbatim>\<open>string | undefined\<close> is a \<open>string option\<close>.
  It is truthy when it is a string that is not empty; \<^verbatim>\<open>a ?? b\<close> is \<open>b\<close> only when
  \<open>a\<close> is missing; \<^verbatim>\<open>Object.is\<close> of it and a string holds when it is that string.
\<close>

definition truthy :: "string option \<Rightarrow> bool" where
  "truthy v = (case v of None \<Rightarrow> False | Some s \<Rightarrow> s \<noteq> [])"

definition nullish_or :: "string option \<Rightarrow> string \<Rightarrow> string" where
  "nullish_or a b = (case a of None \<Rightarrow> b | Some s \<Rightarrow> s)"

definition Object_is :: "string option \<Rightarrow> string \<Rightarrow> bool" where
  "Object_is a b = (a = Some b)"

text \<open>
  One call site of \<^verbatim>\<open>useStorage\<close> is a cell: its configuration and the state
  \<^verbatim>\<open>raw\<close> of \<^verbatim>\<open>useState<string>()\<close>, which starts \<^verbatim>\<open>undefined\<close>. A configuration
  without \<^verbatim>\<open>defaultValue\<close> has \<open>JUndefined\<close> there, as the destructuring gives.
  React's scheduling is not modelled: each closure of the hook is a function of the
  cell and the storage that returns both as it leaves them, \<^verbatim>\<open>setRaw\<close> taking effect
  at once. The cache of \<^verbatim>\<open>useMemo\<close> is part of the state of the call site and is
  passed to the read and returned by it.
\<close>

record UseStorageConfig =
  name :: string
  defaultValue :: jsvalue

record cell = UseStorageConfig +
  raw :: "string option"

definition useState_raw :: "UseStorageConfig \<Rightarrow> cell" where
  "useState_raw config = \<lparr>name = name config, defaultValue = defaultValue config, raw = None\<rparr>"

datatype error = Error string

definition inconsistency :: error where
  "inconsistency = Error (''State inconsistencies between RAM and localStorage. '' @
     ''Consider using `useStorageContext` for states shared by multiple components.'')"

text \<open>The body of the \<^verbatim>\<open>useEffect\<close>: the initialisation of the cell.\<close>

definition initialize :: "cell \<Rightarrow> Storage \<Rightarrow> cell \<times> Storage" where
  "initialize c ls =
     (let currVal = getItem ls (name c) in
      if truthy currVal then (c\<lparr>raw := currVal\<rparr>, ls)
      else
        let rawDefault = nullish_or (Some (js_String (defaultValue c))) [] in
        (c\<lparr>raw := Some rawDefault\<rparr>, setItem ls (name c) rawDefault))"

text \<open>
  \<^verbatim>\<open>getter\<close> is \<^verbatim>\<open>useMemo(calculateValue, [raw, name])\<close>. \<open>calculateValue\<close> is the
  function given to \<^verbatim>\<open>useMemo\<close>, the check of the cell against the storage; \<open>Inl\<close>
  is the \<^verbatim>\<open>Error\<close> it throws.
\<close>

definition calculateValue :: "cell \<Rightarrow> Storage \<Rightarrow> error + jsvalue" where
  "calculateValue c ls =
     (let rawLS = nullish_or (getItem ls (name c)) [] in
      if \<not> Object_is (raw c) rawLS then Inl inconsistency
      else
        let processedLS = parseString rawLS in
        Inr processedLS)"

text \<open>
  \<^verbatim>\<open>useMemo\<close> keeps the value of the last calculation that returned, with the
  dependencies it was computed for. When the dependencies of this render are the
  ones it holds, it returns the value and does not run the calculation; otherwise
  it runs the calculation and, unless that throws, keeps the new value. The cache
  is passed in and returned; \<open>None\<close> is the cache of the first render.
\<close>

definition useMemo :: "('d \<times> 'v) option \<Rightarrow> (error + 'v) \<Rightarrow> 'd \<Rightarrow> (error + 'v) \<times> ('d \<times> 'v) option" where
  "useMemo memo calculated dependencies =
     (case memo of
        Some (deps, v) \<Rightarrow>
          if deps = dependencies then (Inr v, memo)
          else (case calculated of
                  Inl e \<Rightarrow> (Inl e, memo)
                | Inr v' \<Rightarrow> (Inr v', Some (dependencies, v')))
      | None \<Rightarrow>
          (case calculated of
             Inl e \<Rightarrow> (Inl e, memo)
           | Inr v' \<Rightarrow> (Inr v', Some (dependencies, v'))))"

type_synonym memo = "((string option \<times> string) \<times> jsvalue) option"

definition getter :: "memo \<Rightarrow> cell \<Rightarrow> Storage \<Rightarrow> (error + jsvalue) \<times> memo" where
  "getter memo c ls = useMemo memo (calculateValue c ls) (raw c, name c)"

text \<open>
  The caches that reads of the hook leave behind hold the coercion of the cached
  string they were computed for.
\<close>

definition memo_valid :: "memo \<Rightarrow> bool" where
  "memo_valid memo =
     (case memo of
        None \<Rightarrow> True
      | Some ((r, n), v) \<Rightarrow> (case r of None \<Rightarrow> False | Some s \<Rightarrow> v = parseString s))"


section \<open>The shared context\<close>

text \<open>
  \<^verbatim>\<open>createContext\<close> makes a context with a default value; \<^verbatim>\<open>useContext\<close> answers the
  value of the nearest enclosing provider of the context, or the default when there
  is none. The providers around a component are the list of the values they supply,
  the nearest first. The value of \<^verbatim>\<open>StorageContext\<close> is a tuple: empty, or the pair
  of a getter and a setter.
\<close>

datatype 'a react_context = Context (default_value: 'a)

definition createContext :: "'a \<Rightarrow> 'a react_context" where
  "createContext d = Context d"

definition useContext :: "'a react_context \<Rightarrow> 'a list \<Rightarrow> 'a" where
  "useContext ctx providers = (case providers of [] \<Rightarrow> default_value ctx | v # _ \<Rightarrow> v)"

datatype ('g, 's) dispatch = EmptyTuple | Tuple 'g 's

definition StorageContext :: "('g, 's) dispatch react_context" where
  "StorageContext = createContext EmptyTuple"

definition StorageProvider :: "'g \<Rightarrow> 's \<Rightarrow> ('g, 's) dispatch list \<Rightarrow> ('g, 's) dispatch list" where
  "StorageProvider getter' setter' enclosing = Tuple getter' setter' # enclosing"

definition useStorageContext :: "('g, 's) dispatch list \<Rightarrow> ('g, 's) dispatch" where
  "useStorageContext providers = useContext StorageContext providers"

section \<open>Properties of the platform model\<close>

text \<open>
  The recursive equations of the two digit loops are unfolded by hand where they are
  needed.
\<close>

declare digits_of_nat.simps [simp del] strip10.simps [simp del]


subsection \<open>Digits\<close>

lemma is_digit_digit_char: "d < 10 \<Longrightarrow> is_digit (digit_char d)"
  by (simp add: is_digit_def digit_char_def)

lemma digit_val_digit_char: "d < 10 \<Longrightarrow> digit_val (digit_char d) = d"
  by (simp add: digit_val_def digit_char_def)

lemma digits_of_nat_digits: "c \<in> set (digits_of_nat n) \<Longrightarrow> is_digit c"
proof (induction n rule: digits_of_nat.induct)
  case (1 n)
  show ?case
  proof (cases "n < 10")
    case True
    with 1(2) show ?thesis
      by (simp add: digits_of_nat.simps [of n] is_digit_digit_char)
  next
    case False
    with 1 show ?thesis
      by (auto simp: digits_of_nat.simps [of n] is_digit_digit_char)
  qed
qed

lemma digits_of_nat_nonempty: "digits_of_nat n \<noteq> []"
  by (subst digits_of_nat.simps) simp

lemma nat_of_digits_append:
  "nat_of_digits (xs @ ys) = nat_of_digits xs * 10 ^ length ys + nat_of_digits ys"
  by (induction ys rule: rev_induct) (simp_all add: nat_of_digits_def flip: append_assoc)

lemma nat_of_digits_single: "nat_of_digits [c] = digit_val c"
  by (simp add: nat_of_digits_def)

lemma nat_of_digits_zeros: "nat_of_digits (replicate j CHR ''0'') = 0"
proof (induction j)
  case 0
  show ?case by (simp add: nat_of_digits_def)
next
  case (Suc j)
  have "replicate (Suc j) CHR ''0'' = replicate j CHR ''0'' @ ''0''"
    by (simp add: replicate_append_same)
  with Suc show ?case
    by (simp only: nat_of_digits_append nat_of_digits_single) (simp add: digit_val_def)
qed

lemma nat_of_digits_of_nat: "nat_of_digits (digits_of_nat n) = n"
proof (induction n rule: digits_of_nat.induct)
  case (1 n)
  show ?case
  proof (cases "n < 10")
    case True
    then show ?thesis
      by (simp add: digits_of_nat.simps [of n] nat_of_digits_single digit_val_digit_char)
  next
    case False
    with 1 show ?thesis
      by (simp add: digits_of_nat.simps [of n] nat_of_digits_append nat_of_digits_single
                    digit_val_digit_char)
  qed
qed

subsection \<open>Numbers in normal form\<close>

lemma strip10_times10: "m \<noteq> 0 \<Longrightarrow> strip10 (m * 10) e = strip10 m (e + 1)"
  by (subst strip10.simps) simp

lemma strip10_power: "m \<noteq> 0 \<Longrightarrow> strip10 (m * 10 ^ j) e = strip10 m (e + int j)"
proof (induction j arbitrary: e)
  case 0
  show ?case by simp
next
  case (Suc j)
  have "m * 10 ^ Suc j = (m * 10 ^ j) * 10"
    by (simp add: algebra_simps)
  then have "strip10 (m * 10 ^ Suc j) e = strip10 ((m * 10 ^ j) * 10) e"
    by (simp only:)
  also have "\<dots> = strip10 (m * 10 ^ j) (e + 1)"
    using Suc.prems by (intro strip10_times10) simp
  also have "\<dots> = strip10 m (e + 1 + int j)"
    using Suc by simp
  finally show ?case by (simp add: add.assoc)
qed

lemma number_shift: "number (m * 10 ^ j) e = number m (e + int j)"
  by (cases "m = 0") (simp_all add: number_def strip10_power)

lemma strip10_normal: "s mod 10 \<noteq> 0 \<Longrightarrow> strip10 s e = (s, e)"
  by (subst strip10.simps) simp

lemma strip10_result: "m \<noteq> 0 \<Longrightarrow> strip10 m e = (s, e') \<Longrightarrow> s mod 10 \<noteq> 0"
proof (induction m e rule: strip10.induct)
  case (1 m e)
  show ?case
  proof (cases "m mod 10 = 0")
    case True
    with 1(2) have "m div 10 \<noteq> 0" by auto
    moreover from True 1(2,3) have "strip10 (m div 10) (e + 1) = (s, e')"
      by (subst (asm) strip10.simps) simp
    ultimately show ?thesis by (rule 1(1) [OF conjI [OF 1(2) True]])
  next
    case False
    with 1(3) show ?thesis by (subst (asm) strip10.simps) auto
  qed
qed

lemma number_normal: "s mod 10 \<noteq> 0 \<Longrightarrow> number s e = Dec s e"
  by (auto simp: number_def strip10_normal)

lemma number_cases:
  obtains "number m e = Dec 0 0" | s e' where "number m e = Dec s e'" "s mod 10 \<noteq> 0"
proof (cases "m = 0")
  case True
  then show ?thesis using that(1) by (simp add: number_def)
next
  case False
  obtain s e' where se: "strip10 m e = (s, e')" by (cases "strip10 m e")
  with False strip10_result [OF False se] show ?thesis
    using that(2) [of s e'] by (simp add: number_def)
qed

subsection \<open>Scanning digits\<close>

lemma takeWhile_digits_all:
  "\<forall>c\<in>set ds. is_digit c \<Longrightarrow> takeWhile is_digit ds = ds \<and> dropWhile is_digit ds = []"
  by simp

lemma takeWhile_digits_stop:
  "\<forall>c\<in>set ds. is_digit c \<Longrightarrow> t = [] \<or> \<not> is_digit (hd t) \<Longrightarrow>
   takeWhile is_digit (ds @ t) = ds \<and> dropWhile is_digit (ds @ t) = t"
  by (cases t) (simp_all add: takeWhile_append2 dropWhile_append2)

lemma not_digit_chars:
  "\<not> is_digit CHR ''.''" "\<not> is_digit CHR ''e''" "\<not> is_digit CHR ''-''" "\<not> is_digit CHR ''+''"
  by (simp_all add: is_digit_def)

lemma scan_exponent_suffix:
  assumes "t = [] \<or> \<not> is_digit (hd t)"
  shows "scan_exponent (exponent_suffix x @ t) = (x, t)"
proof -
  define ds where "ds = digits_of_nat (nat \<bar>x\<bar>)"
  have d: "\<forall>c\<in>set ds. is_digit c" by (simp add: ds_def digits_of_nat_digits)
  from takeWhile_digits_stop [OF d assms]
  have tw: "takeWhile is_digit (ds @ t) = ds" "dropWhile is_digit (ds @ t) = t" by simp_all
  have ne: "ds \<noteq> []" by (simp add: ds_def digits_of_nat_nonempty)
  have val: "int (nat_of_digits ds) = \<bar>x\<bar>" by (simp add: ds_def nat_of_digits_of_nat)
  have ex: "exponent_suffix x @ t = CHR ''e'' # (if x < 0 then CHR ''-'' else CHR ''+'') # ds @ t"
    by (simp add: exponent_suffix_def ds_def)
  show ?thesis
    unfolding ex using tw ne val
    by (cases "x < 0") (simp_all add: scan_exponent_def scan_sign_def)
qed

subsection \<open>Reading a decimal literal\<close>

lemma digit_not_Infinity: "is_digit d \<Longrightarrow> take 8 (d # t) \<noteq> ''Infinity''"
  by (auto simp: is_digit_def)

lemma scan_fraction_no_point: "t = [] \<or> hd t \<noteq> CHR ''.'' \<Longrightarrow> scan_fraction t = ([], t)"
  by (cases t) (simp_all add: scan_fraction_def)

lemma literal_without_fraction:
  assumes ip: "ip \<noteq> []" "\<forall>c\<in>set ip. is_digit c"
    and t: "t = [] \<or> (\<not> is_digit (hd t) \<and> hd t \<noteq> CHR ''.'')"
  shows "StrUnsignedDecimalLiteral neg (ip @ t) =
           number ((if neg then - 1 else 1) * int (nat_of_digits ip)) (fst (scan_exponent t))"
proof -
  from ip obtain d ip' where d: "ip = d # ip'" "is_digit d" by (cases ip) auto
  then have inf: "take 8 (ip @ t) \<noteq> ''Infinity''"
    using digit_not_Infinity [of d "ip' @ t"] by simp
  from t have "t = [] \<or> \<not> is_digit (hd t)" by blast
  from takeWhile_digits_stop [OF ip(2) this]
  have tw: "takeWhile is_digit (ip @ t) = ip" "dropWhile is_digit (ip @ t) = t" by simp_all
  from t have fr: "scan_fraction t = ([], t)" by (intro scan_fraction_no_point) blast
  show ?thesis
    unfolding StrUnsignedDecimalLiteral_def using inf ip(1)
    by (simp only: tw fr Let_def if_False prod.case append_Nil2 list.size simp_thms) simp
qed

lemma literal_with_fraction:
  assumes ip: "ip \<noteq> []" "\<forall>c\<in>set ip. is_digit c"
    and fp: "\<forall>c\<in>set fp. is_digit c"
    and t: "t = [] \<or> \<not> is_digit (hd t)"
  shows "StrUnsignedDecimalLiteral neg (ip @ CHR ''.'' # fp @ t) =
           number ((if neg then - 1 else 1) * int (nat_of_digits (ip @ fp)))
                  (fst (scan_exponent t) - int (length fp))"
proof -
  from ip obtain d ip' where d: "ip = d # ip'" "is_digit d" by (cases ip) auto
  then have inf: "take 8 (ip @ CHR ''.'' # fp @ t) \<noteq> ''Infinity''"
    using digit_not_Infinity [of d "ip' @ CHR ''.'' # fp @ t"] by simp
  have "CHR ''.'' # fp @ t = [] \<or> \<not> is_digit (hd (CHR ''.'' # fp @ t))"
    by (simp add: not_digit_chars)
  from takeWhile_digits_stop [OF ip(2) this]
  have tw: "takeWhile is_digit (ip @ CHR ''.'' # fp @ t) = ip"
           "dropWhile is_digit (ip @ CHR ''.'' # fp @ t) = CHR ''.'' # fp @ t" by simp_all
  from takeWhile_digits_stop [OF fp t]
  have fr: "scan_fraction (CHR ''.'' # fp @ t) = (fp, t)"
    by (simp add: scan_fraction_def)
  show ?thesis
    unfolding StrUnsignedDecimalLiteral_def using inf ip(1)
    by (simp only: tw fr Let_def if_False prod.case simp_thms)
qed

lemma scan_exponent_Nil: "scan_exponent [] = (0, [])"
  by (simp add: scan_exponent_def)

lemma exponent_suffix_head:
  "exponent_suffix x = [] \<or> (\<not> is_digit (hd (exponent_suffix x)) \<and> hd (exponent_suffix x) \<noteq> CHR ''.'')"
  by (simp add: exponent_suffix_def not_digit_chars)


subsection \<open>Printing and reading back\<close>

lemma nat_of_digits_leading_zero: "nat_of_digits (CHR ''0'' # ds) = nat_of_digits ds"
  using nat_of_digits_append [of "''0''" ds]
  by (simp add: nat_of_digits_single digit_val_def)

lemma format_digits_head:
  assumes ds: "ds \<noteq> []" "\<forall>c\<in>set ds. is_digit c"
  shows "\<exists>d r. format_digits ds n = d # r \<and> is_digit d"
proof -
  from ds obtain d ds' where d: "ds = d # ds'" "is_digit d" by (cases ds) auto
  have "take (nat n) ds = d # take (nat n - 1) ds'" if "0 < n"
    using that d(1) by (cases "nat n") simp_all
  with d show ?thesis
    by (auto simp: format_digits_def Let_def is_digit_def)
qed

lemma read_format_digits:
  assumes ds: "ds \<noteq> []" "\<forall>c\<in>set ds. is_digit c"
  shows "StrUnsignedDecimalLiteral neg (format_digits ds n) =
           number ((if neg then - 1 else 1) * int (nat_of_digits ds)) (n - int (length ds))"
proof -
  let ?k = "int (length ds)"
  let ?sg = "if neg then - 1 else 1 :: int"
  let ?a = "int (nat_of_digits ds)"
  consider (plain) "?k \<le> n" "n \<le> 21"
    | (point) "\<not> ?k \<le> n" "0 < n" "n \<le> 21"
    | (small) "\<not> (?k \<le> n \<and> n \<le> 21)" "- 6 < n" "n \<le> 0"
    | (exp1) "\<not> (?k \<le> n \<and> n \<le> 21)" "\<not> (0 < n \<and> n \<le> 21)" "\<not> (- 6 < n \<and> n \<le> 0)" "?k = 1"
    | (expk) "\<not> (?k \<le> n \<and> n \<le> 21)" "\<not> (0 < n \<and> n \<le> 21)" "\<not> (- 6 < n \<and> n \<le> 0)" "?k \<noteq> 1"
    by linarith
  then show ?thesis
  proof cases
    case plain
    let ?z = "replicate (nat (n - ?k)) CHR ''0''"
    have f: "format_digits ds n = (ds @ ?z) @ []"
      using plain by (simp add: format_digits_def)
    have dz: "\<forall>c\<in>set (ds @ ?z). is_digit c"
      using ds(2) by (auto simp: is_digit_def)
    have "StrUnsignedDecimalLiteral neg ((ds @ ?z) @ []) =
            number (?sg * int (nat_of_digits (ds @ ?z))) (fst (scan_exponent []))"
      using ds(1) dz by (intro literal_without_fraction) simp_all
    also have "\<dots> = number ((?sg * ?a) * 10 ^ nat (n - ?k)) 0"
      by (simp add: nat_of_digits_append nat_of_digits_zeros scan_exponent_Nil)
    also have "\<dots> = number (?sg * ?a) (n - ?k)"
      using plain by (simp only: number_shift) simp
    finally show ?thesis by (simp only: f)
  next
    case point
    have f: "format_digits ds n = take (nat n) ds @ CHR ''.'' # drop (nat n) ds @ []"
      using point by (simp add: format_digits_def)
    have "StrUnsignedDecimalLiteral neg (take (nat n) ds @ CHR ''.'' # drop (nat n) ds @ []) =
            number (?sg * int (nat_of_digits (take (nat n) ds @ drop (nat n) ds)))
                   (fst (scan_exponent []) - int (length (drop (nat n) ds)))"
    proof (intro literal_with_fraction)
      show "take (nat n) ds \<noteq> []" using point ds(1) by simp
      show "\<forall>c\<in>set (take (nat n) ds). is_digit c" using ds(2) by (auto dest: in_set_takeD)
      show "\<forall>c\<in>set (drop (nat n) ds). is_digit c" using ds(2) by (auto dest: in_set_dropD)
    qed simp
    also have "\<dots> = number (?sg * ?a) (n - ?k)"
      using point by (simp add: scan_exponent_Nil)
    finally show ?thesis by (simp only: f)
  next
    case small
    let ?z = "replicate (nat (- n)) CHR ''0''"
    have f: "format_digits ds n = ''0'' @ CHR ''.'' # (?z @ ds) @ []"
      using small by (simp add: format_digits_def)
    have "StrUnsignedDecimalLiteral neg (''0'' @ CHR ''.'' # (?z @ ds) @ []) =
            number (?sg * int (nat_of_digits (''0'' @ ?z @ ds)))
                   (fst (scan_exponent []) - int (length (?z @ ds)))"
      using ds(2) by (intro literal_with_fraction) (auto simp: is_digit_def)
    also have "nat_of_digits (''0'' @ ?z @ ds) = nat_of_digits ds"
      by (simp add: nat_of_digits_leading_zero nat_of_digits_append nat_of_digits_zeros)
    also have "fst (scan_exponent []) - int (length (?z @ ds)) = n - ?k"
      using small by (simp add: scan_exponent_Nil)
    finally show ?thesis by (simp only: f)
  next
    case exp1
    have f: "format_digits ds n = ds @ exponent_suffix (n - 1)"
      using exp1 by (auto simp: format_digits_def)
    have "StrUnsignedDecimalLiteral neg (ds @ exponent_suffix (n - 1)) =
            number (?sg * ?a) (fst (scan_exponent (exponent_suffix (n - 1))))"
      using ds exponent_suffix_head by (intro literal_without_fraction)
    also have "scan_exponent (exponent_suffix (n - 1)) = (n - 1, [])"
      using scan_exponent_suffix [of "[]" "n - 1"] by simp
    finally show ?thesis using exp1 by (simp only: f) simp
  next
    case expk
    from ds(1) have "length ds \<noteq> 0" by simp
    with expk(4) have k: "2 \<le> ?k" by linarith
    have f: "format_digits ds n = take 1 ds @ CHR ''.'' # drop 1 ds @ exponent_suffix (n - 1)"
      using expk by (auto simp: format_digits_def)
    have "StrUnsignedDecimalLiteral neg (take 1 ds @ CHR ''.'' # drop 1 ds @ exponent_suffix (n - 1)) =
            number (?sg * int (nat_of_digits (take 1 ds @ drop 1 ds)))
                   (fst (scan_exponent (exponent_suffix (n - 1))) - int (length (drop 1 ds)))"
    proof (intro literal_with_fraction)
      show "take 1 ds \<noteq> []" using ds(1) by simp
      show "\<forall>c\<in>set (take 1 ds). is_digit c" using ds(2) by (auto dest: in_set_takeD)
      show "\<forall>c\<in>set (drop 1 ds). is_digit c" using ds(2) by (auto dest: in_set_dropD)
      show "exponent_suffix (n - 1) = [] \<or> \<not> is_digit (hd (exponent_suffix (n - 1)))"
        using exponent_suffix_head by blast
    qed
    also have "scan_exponent (exponent_suffix (n - 1)) = (n - 1, [])"
      using scan_exponent_suffix [of "[]" "n - 1"] by simp
    finally show ?thesis using k by (simp only: f) simp
  qed
qed

subsection \<open>What the structured stage can claim\<close>

lemma parse_value_not_composite:
  "t \<noteq> LBracket \<Longrightarrow> t \<noteq> LBrace \<Longrightarrow> parse_value [] (t # ts) = Some v \<Longrightarrow>
   \<not> (typeof v = ''object'' \<and> v \<noteq> JNull)"
  by (cases t) (auto simp: typeof_def split: if_splits)

lemma tokenize_first:
  assumes tok: "tokenize (c # cs) = Some ts"
    and c: "\<not> is_json_ws c" "c \<noteq> CHR ''[''" "c \<noteq> CHR ''{''"
  shows "\<exists>t ts'. ts = t # ts' \<and> t \<noteq> LBracket \<and> t \<noteq> LBrace"
proof (cases "c = CHR ''}'' \<or> c = CHR '']'' \<or> c = CHR '':'' \<or> c = CHR '',''")
  case True
  with tok c show ?thesis by auto
next
  case punct: False
  show ?thesis
  proof (cases "c = CHR 0x22")
    case True
    with tok c punct show ?thesis by (auto split: option.splits)
  next
    case quote: False
    show ?thesis
    proof (cases "c = CHR ''-'' \<or> is_digit c")
      case True
      with tok c punct quote have
        "(case scan_json_number (c # cs) of None \<Rightarrow> None
          | Some (x, rest) \<Rightarrow> map_option ((#) (TNumber x)) (tokenize rest)) = Some ts"
        by simp
      then show ?thesis by (auto split: option.splits)
    next
      case False
      with tok c punct quote show ?thesis by (auto split: if_splits)
    qed
  qed
qed


lemma structured_first_char:
  assumes "\<not> is_json_ws c" "c \<noteq> CHR ''[''" "c \<noteq> CHR ''{''"
  shows "structured (c # cs) = None"
proof (cases "tokenize (c # cs)")
  case None
  then show ?thesis by (simp add: structured_def JSON_parse_def)
next
  case (Some ts)
  from tokenize_first [OF Some assms] obtain t ts' where
    ts: "ts = t # ts'" and t: "t \<noteq> LBracket" "t \<noteq> LBrace"
    by blast
  show ?thesis
  proof (cases "parse_value [] (t # ts')")
    case None
    with Some ts show ?thesis by (simp add: structured_def JSON_parse_def)
  next
    case v: (Some v)
    from parse_value_not_composite [OF t v] Some ts v show ?thesis
      by (simp add: structured_def JSON_parse_def)
  qed
qed

subsection \<open>A printed number is read back\<close>

lemma digit_facts:
  assumes "is_digit d"
  shows "\<not> is_StrWhiteSpaceChar d" "\<not> is_json_ws d" "d \<noteq> CHR ''-''" "d \<noteq> CHR ''+''"
        "d \<noteq> CHR ''[''" "d \<noteq> CHR ''{''"
  using assms by (auto simp: is_digit_def is_StrWhiteSpaceChar_def is_json_ws_def)

lemma parseFloat_digit_first:
  "is_digit d \<Longrightarrow> parseFloat (d # r) = StrUnsignedDecimalLiteral False (d # r)"
  by (simp add: parseFloat_def scan_sign_def digit_facts)

lemma parseFloat_minus_first:
  "parseFloat (CHR ''-'' # r) = StrUnsignedDecimalLiteral True r"
  by (simp add: parseFloat_def scan_sign_def is_StrWhiteSpaceChar_def)

lemma parseFloat_Number_toString:
  assumes "s mod 10 \<noteq> 0"
  shows "parseFloat (Number_toString (Dec s e)) = Dec s e"
proof -
  define ds where "ds = digits_of_nat (nat \<bar>s\<bar>)"
  define body where "body = format_digits ds (e + int (length ds))"
  from assms have s: "s \<noteq> 0" by auto
  have ds: "ds \<noteq> []" "\<forall>c\<in>set ds. is_digit c"
    by (simp_all add: ds_def digits_of_nat_nonempty digits_of_nat_digits)
  have val: "int (nat_of_digits ds) = \<bar>s\<bar>"
    by (simp add: ds_def nat_of_digits_of_nat)
  have str: "Number_toString (Dec s e) = (if s < 0 then CHR ''-'' # body else body)"
    using s by (simp add: Number_toString_def strip10_normal [OF assms] ds_def body_def Let_def)
  have rd: "StrUnsignedDecimalLiteral neg body = number ((if neg then - 1 else 1) * \<bar>s\<bar>) e" for neg
    using read_format_digits [OF ds, of neg "e + int (length ds)"] val
    by (simp add: body_def)
  show ?thesis
  proof (cases "s < 0")
    case True
    with str rd [of True] show ?thesis
      by (simp add: parseFloat_minus_first number_normal [OF assms])
  next
    case False
    from format_digits_head [OF ds, of "e + int (length ds)"]
    obtain d r where b: "body = d # r" "is_digit d" by (auto simp: body_def)
    with False str rd [of False] show ?thesis
      by (simp add: parseFloat_digit_first number_normal [OF assms])
  qed
qed

lemma Number_toString_head:
  "\<exists>c r. Number_toString x = c # r \<and> \<not> is_json_ws c \<and> c \<noteq> CHR ''['' \<and> c \<noteq> CHR ''{''"
proof (cases x)
  case (Dec m e)
  show ?thesis
  proof (cases "m = 0")
    case True
    with Dec show ?thesis by (simp add: Number_toString_def is_json_ws_def)
  next
    case False
    obtain s e' where se: "strip10 m e = (s, e')" by (cases "strip10 m e")
    define ds where "ds = digits_of_nat (nat \<bar>s\<bar>)"
    have ds: "ds \<noteq> []" "\<forall>c\<in>set ds. is_digit c"
      by (simp_all add: ds_def digits_of_nat_nonempty digits_of_nat_digits)
    from format_digits_head [OF ds, of "e' + int (length ds)"]
    obtain d r where b: "format_digits ds (e' + int (length ds)) = d # r" "is_digit d" by auto
    have "Number_toString x =
            (if s < 0 then CHR ''-'' # format_digits ds (e' + int (length ds))
             else format_digits ds (e' + int (length ds)))"
      using Dec False se by (simp add: Number_toString_def ds_def Let_def)
    with b digit_facts [OF b(2)] show ?thesis
      by (cases "s < 0") (simp_all add: is_json_ws_def)
  qed
qed (simp_all add: Number_toString_def is_json_ws_def)

lemma structured_Number_toString: "structured (Number_toString x) = None"
  using Number_toString_head [of x] structured_first_char by auto

lemma parseString_numeric:
  "structured input = None \<Longrightarrow> \<not> isNaN (parseFloat input) \<Longrightarrow>
   parseString input = JNumber (parseFloat input)"
  by (simp add: parseString_def)

lemma parseString_Number_toString:
  "parseString (Number_toString (number m e)) = JNumber (number m e)"
proof (cases m e rule: number_cases)
  case 1
  have "parseFloat ''0'' = Dec 0 0" by code_simp
  moreover have "Number_toString (Dec 0 0) = ''0''" by (simp add: Number_toString_def)
  ultimately show ?thesis
    using 1 structured_Number_toString [of "Dec 0 0"]
    by (simp add: parseString_def isNaN_def)
next
  case (2 s e')
  with parseFloat_Number_toString [OF 2(2), of e'] structured_Number_toString [of "Dec s e'"]
  show ?thesis by (simp add: parseString_def isNaN_def)
qed

lemma structured_Some:
  "structured input = Some v \<Longrightarrow> typeof v = ''object'' \<and> v \<noteq> JNull"
  by (simp add: structured_def split: option.splits if_splits)

lemma parseString_never_NaN: "parseString input \<noteq> JNumber NaN"
proof (cases "structured input")
  case None
  then show ?thesis by (simp add: parseString_def isNaN_def Let_def)
next
  case (Some v)
  from structured_Some [OF Some] have "v \<noteq> JNumber NaN" by (auto simp: typeof_def)
  with Some show ?thesis by (simp add: parseString_def)
qed

lemma parseString_leading_digits:
  assumes ds: "ds \<noteq> []" "\<forall>c\<in>set ds. is_digit c"
    and t: "t = [] \<or> (\<not> is_digit (hd t) \<and> hd t \<noteq> CHR ''.'' \<and> hd t \<noteq> CHR ''e'' \<and> hd t \<noteq> CHR ''E'')"
  shows "parseString (ds @ t) = JNumber (number (int (nat_of_digits ds)) 0)"
proof -
  from ds obtain d ds' where d: "ds = d # ds'" "is_digit d" by (cases ds) auto
  from t have ex: "scan_exponent t = (0, t)"
    by (cases t) (auto simp: scan_exponent_def)
  from t have "t = [] \<or> (\<not> is_digit (hd t) \<and> hd t \<noteq> CHR ''.'')" by blast
  from literal_without_fraction [OF ds this, of False] ex
  have "StrUnsignedDecimalLiteral False (ds @ t) = number (int (nat_of_digits ds)) 0" by simp
  with d parseFloat_digit_first [of d "ds' @ t"]
  have pf: "parseFloat (ds @ t) = number (int (nat_of_digits ds)) 0" by simp
  have "\<not> isNaN (number (int (nat_of_digits ds)) 0)"
    by (cases "int (nat_of_digits ds)" "0 :: int" rule: number_cases) (simp_all add: isNaN_def)
  moreover from d digit_facts [OF d(2)] have "structured (ds @ t) = None"
    using structured_first_char [of d "ds' @ t"] by simp
  ultimately show ?thesis using pf by (simp add: parseString_def)
qed

section \<open>The coercion routine, stage by stage\<close>

lemma structured_composite:
  "JSON_parse input = Some (JArray xs) \<Longrightarrow> structured input = Some (JArray xs)"
  "JSON_parse input = Some (JObject kvs) \<Longrightarrow> structured input = Some (JObject kvs)"
  by (simp_all add: structured_def typeof_def)

lemma structured_None:
  assumes "\<forall>xs. JSON_parse input \<noteq> Some (JArray xs)" "\<forall>kvs. JSON_parse input \<noteq> Some (JObject kvs)"
  shows "structured input = None"
proof (cases "JSON_parse input")
  case None
  then show ?thesis by (simp add: structured_def)
next
  case (Some v)
  with assms show ?thesis
    by (cases v) (simp_all add: structured_def typeof_def)
qed

text \<open>
  C3. The structured stage comes first. When \<^verbatim>\<open>JSON.parse\<close> accepts the input and the
  value is an array or an object, \<open>parseString\<close> returns that value; the text
  \<^verbatim>\<open>{"a":1}\<close> gives the object with the one property \<open>a\<close> equal to 1, not a
  string. Only when \<^verbatim>\<open>JSON.parse\<close> gives no array and no object (it throws, or the
  value is \<^verbatim>\<open>null\<close> or a primitive) do the numeric, the boolean and the identity stage
  decide, in that order.
\<close>

theorem structured_stage_first:
  \<open>(JSON_parse input = Some (JArray xs) \<longrightarrow> parseString input = JArray xs)
   \<and> (JSON_parse input = Some (JObject kvs) \<longrightarrow> parseString input = JObject kvs)
   \<and> ((\<forall>xs. JSON_parse input \<noteq> Some (JArray xs)) \<and> (\<forall>kvs. JSON_parse input \<noteq> Some (JObject kvs)) \<longrightarrow>
        parseString input =
          (if \<not> isNaN (parseFloat input) then JNumber (parseFloat input)
           else if input = ''true'' \<or> input = ''false'' then JBoolean (input = ''true'')
           else JString input))
   \<and> parseString ''{"a":1}'' = JObject [(''a'', JNumber (Dec 1 0))]\<close>
proof (intro conjI impI)
  assume "JSON_parse input = Some (JArray xs)"
  from structured_composite(1) [OF this] show "parseString input = JArray xs"
    by (simp add: parseString_def)
next
  assume "JSON_parse input = Some (JObject kvs)"
  from structured_composite(2) [OF this] show "parseString input = JObject kvs"
    by (simp add: parseString_def)
next
  assume "(\<forall>xs. JSON_parse input \<noteq> Some (JArray xs)) \<and> (\<forall>kvs. JSON_parse input \<noteq> Some (JObject kvs))"
  then have "structured input = None" by (intro structured_None) simp_all
  then show "parseString input =
          (if \<not> isNaN (parseFloat input) then JNumber (parseFloat input)
           else if input = ''true'' \<or> input = ''false'' then JBoolean (input = ''true'')
           else JString input)"
    by (simp add: parseString_def Let_def)
next
  show \<open>parseString ''{"a":1}'' = JObject [(''a'', JNumber (Dec 1 0))]\<close>
    by code_simp
qed

theorem structured_stage_first_witness:
  "parseString ''[1,2]'' = JArray [JNumber (Dec 1 0), JNumber (Dec 2 0)]
   \<and> parseString ''{}'' = JObject []
   \<and> parseString ''null'' = JString ''null''"
proof -
  have a: "JSON_parse ''[1,2]'' = Some (JArray [JNumber (Dec 1 0), JNumber (Dec 2 0)])"
    by code_simp
  have b: "JSON_parse ''{}'' = Some (JObject [])"
    by code_simp
  have c: "JSON_parse ''null'' = Some JNull"
    by code_simp
  have d: "isNaN (parseFloat ''null'')"
    by code_simp
  from structured_stage_first [of "''[1,2]''" "[JNumber (Dec 1 0), JNumber (Dec 2 0)]" "[]"]
       structured_stage_first [of "''{}''" "[]" "[]"]
       structured_stage_first [of "''null''" "[]" "[]"]
       a b c d
  show ?thesis by simp
qed

text \<open>
  C5, as the code has it. For an input the structured stage does not claim,
  \<open>parseString\<close> returns the number that \<^verbatim>\<open>parseFloat\<close> reads from the leading run
  of the input whenever that is not \<open>NaN\<close>: digits followed by other text give the
  number of the digits, \<^verbatim>\<open>3abc\<close> gives 3. The stage never returns \<open>NaN\<close>; it does
  return the two infinities, since the guard is \<^verbatim>\<open>!isNaN\<close> and not a test for
  finiteness.
\<close>

theorem numeric_stage:
  "(structured input = None \<and> \<not> isNaN (parseFloat input) \<longrightarrow>
      parseString input = JNumber (parseFloat input))
   \<and> (ds \<noteq> [] \<and> (\<forall>c\<in>set ds. is_digit c) \<and>
      (t = [] \<or> (\<not> is_digit (hd t) \<and> hd t \<noteq> CHR ''.'' \<and> hd t \<noteq> CHR ''e'' \<and> hd t \<noteq> CHR ''E'')) \<longrightarrow>
      parseString (ds @ t) = JNumber (number (int (nat_of_digits ds)) 0))
   \<and> parseString ''3abc'' = JNumber (Dec 3 0)
   \<and> parseString input \<noteq> JNumber NaN"
proof (intro conjI impI)
  show "parseString ''3abc'' = JNumber (Dec 3 0)" by code_simp
qed (simp_all add: parseString_numeric parseString_leading_digits parseString_never_NaN)

theorem numeric_stage_witness:
  "parseString ''12.5px'' = JNumber (Dec 125 (- 1))
   \<and> parseString ''-Infinity'' = JNumber NegInfinity
   \<and> parseString ''42 apples'' = JNumber (Dec 42 0)"
proof -
  note px = numeric_stage [of "''12.5px''" "''42''" "'' apples''"]
  note inf = numeric_stage [of "''-Infinity''" "''42''" "'' apples''"]
  have a: "structured ''12.5px'' = None" "parseFloat ''12.5px'' = Dec 125 (- 1)"
    by code_simp+
  have b: "structured ''-Infinity'' = None" "parseFloat ''-Infinity'' = NegInfinity"
    by code_simp+
  have c: "''42'' \<noteq> [] \<and> (\<forall>c\<in>set ''42''. is_digit c) \<and>
           ('' apples'' = [] \<or> (\<not> is_digit (hd '' apples'') \<and> hd '' apples'' \<noteq> CHR ''.'' \<and>
              hd '' apples'' \<noteq> CHR ''e'' \<and> hd '' apples'' \<noteq> CHR ''E''))"
    by (simp add: is_digit_def)
  have d: "number (int (nat_of_digits ''42'')) 0 = Dec 42 0"
    by code_simp
  from px [THEN conjunct1] a have "parseString ''12.5px'' = JNumber (Dec 125 (- 1))"
    by (simp add: isNaN_def)
  moreover from inf [THEN conjunct1] b have "parseString ''-Infinity'' = JNumber NegInfinity"
    by (simp add: isNaN_def)
  moreover from px [THEN conjunct2, THEN conjunct1, THEN mp, OF c] d
  have "parseString ''42 apples'' = JNumber (Dec 42 0)"
    by simp
  ultimately show ?thesis by simp
qed

text \<open>The input \<^verbatim>\<open>Infinity\<close> is coerced to a number that is not finite.\<close>

theorem numeric_stage_not_only_finite:
  "parseString ''Infinity'' = JNumber PosInfinity \<and> \<not> isFinite PosInfinity"
  by code_simp

text \<open>
  C7, as the code has it. \<open>parseString (String v) = v\<close> for every number \<open>v\<close> other
  than \<open>NaN\<close> (every finite number is \<open>number m e\<close> for some \<open>m\<close> and \<open>e\<close>) and for
  both booleans; a string that has no structured form, that \<^verbatim>\<open>parseFloat\<close> reads as
  \<open>NaN\<close> and that is neither \<^verbatim>\<open>true\<close> nor \<^verbatim>\<open>false\<close> is returned as it is, and
  so is the empty string.
\<close>

theorem coercion_round_trip:
  "parseString (js_String (JNumber (number m e))) = JNumber (number m e)
   \<and> parseString (js_String (JNumber PosInfinity)) = JNumber PosInfinity
   \<and> parseString (js_String (JNumber NegInfinity)) = JNumber NegInfinity
   \<and> parseString (js_String (JBoolean b)) = JBoolean b
   \<and> (structured s = None \<and> isNaN (parseFloat s) \<and> s \<noteq> ''true'' \<and> s \<noteq> ''false'' \<longrightarrow>
        parseString s = JString s)
   \<and> parseString [] = JString []"
proof (intro conjI impI)
  show "parseString (js_String (JNumber (number m e))) = JNumber (number m e)"
    by (simp add: parseString_Number_toString)
  show "parseString (js_String (JNumber PosInfinity)) = JNumber PosInfinity"
    by code_simp
  show "parseString (js_String (JNumber NegInfinity)) = JNumber NegInfinity"
    by code_simp
  have "parseString ''true'' = JBoolean True" "parseString ''false'' = JBoolean False"
    by code_simp+
  then show "parseString (js_String (JBoolean b)) = JBoolean b"
    by (cases b) simp_all
  show "parseString [] = JString []"
    by code_simp
next
  assume "structured s = None \<and> isNaN (parseFloat s) \<and> s \<noteq> ''true'' \<and> s \<noteq> ''false''"
  then show "parseString s = JString s"
    by (simp add: parseString_def)
qed

theorem coercion_round_trip_witness:
  "parseString ''hello world'' = JString ''hello world''
   \<and> parseString (js_String (JNumber (number 1500 (- 2)))) = JNumber (Dec 15 0)"
proof -
  have a: "structured ''hello world'' = None" "isNaN (parseFloat ''hello world'')"
    by code_simp+
  have b: "number 1500 (- 2) = Dec 15 0"
    by code_simp
  from coercion_round_trip [of 1500 "- 2" True "''hello world''"] a b
  show ?thesis by simp
qed

text \<open>
  The text of \<open>NaN\<close> is \<^verbatim>\<open>NaN\<close>, which \<^verbatim>\<open>parseFloat\<close> reads as \<open>NaN\<close> again: the
  numeric stage is skipped and the string comes back.
\<close>

theorem round_trip_fails_for_NaN:
  "parseString (js_String (JNumber NaN)) = JString ''NaN'' \<and> JString ''NaN'' \<noteq> JNumber NaN"
  by code_simp

section \<open>Evaluations used below\<close>


lemma parseString_one: "parseString ''1'' = JNumber (Dec 1 0)"
  by code_simp



section \<open>The synchronized cell\<close>

text \<open>
  Two facts about \<open>initialize\<close> that hold as the documentation has them: a string
  that is present and not empty is adopted and nothing is written; for a key that
  was never written, the text of the default value is written and adopted.
\<close>

lemma initialize_adopts:
  "getItem ls (name c) = Some p \<Longrightarrow> p \<noteq> [] \<Longrightarrow> initialize c ls = (c\<lparr>raw := Some p\<rparr>, ls)"
  by (simp add: initialize_def truthy_def)

lemma initialize_writes_default:
  "getItem ls (name c) = None \<Longrightarrow>
   initialize c ls =
     (c\<lparr>raw := Some (js_String (defaultValue c))\<rparr>,
      setItem ls (name c) (js_String (defaultValue c)))"
  by (simp add: initialize_def truthy_def nullish_or_def Let_def)

subsection \<open>The cache of \<^verbatim>\<open>useMemo\<close>\<close>


lemma calculateValue_unset: "raw c = None \<Longrightarrow> calculateValue c ls = Inl inconsistency"
  by (simp add: calculateValue_def Object_is_def)

text \<open>
  With no entry for the present dependencies the calculation runs; with one, its
  value is returned and the calculation does not run.
\<close>

lemma getter_miss:
  "\<forall>v. memo \<noteq> Some ((raw c, name c), v) \<Longrightarrow> fst (getter memo c ls) = calculateValue c ls"
  by (auto simp: getter_def useMemo_def split: option.splits sum.splits)


text \<open>
  The caches the hook itself can hold: none, or the value computed by a read that
  did not throw, which is the coercion of the cached string of that read. The first
  render has no cache, and a read leaves such a cache behind.
\<close>

lemma memo_valid_None: "memo_valid None"
  by (simp add: memo_valid_def)

lemma memo_valid_getter: "memo_valid memo \<Longrightarrow> memo_valid (snd (getter memo c ls))"
  by (cases "raw c")
     (auto simp: getter_def useMemo_def memo_valid_def calculateValue_def Object_is_def Let_def
           split: option.splits sum.splits if_splits)


lemma memo_valid_unset: "memo_valid memo \<Longrightarrow> memo \<noteq> Some ((None, n), v)"
  by (auto simp: memo_valid_def)


lemma getter_unset:
  assumes "memo_valid memo" "raw c = None"
  shows "fst (getter memo c ls) = Inl inconsistency"
proof -
  from assms memo_valid_unset [of memo "name c"]
  have "\<forall>v. memo \<noteq> Some ((raw c, name c), v)" by simp
  from getter_miss [OF this, of ls] calculateValue_unset [OF assms(2), of ls]
  show ?thesis by simp
qed


subsection \<open>Reads and writes\<close>






text \<open>
  C4. Initialisation of a cell without a default value, for a key the storage does
  not hold: the code writes and caches the text \<open>undefined\<close>, not the empty string,
  because \<^verbatim>\<open>String(undefined)\<close> is a string and \<^verbatim>\<open>??\<close> never takes its right side.
\<close>

theorem initialize_without_default:
  "initialize (useState_raw \<lparr>name = ''k'', defaultValue = JUndefined\<rparr>) Map.empty =
     (\<lparr>name = ''k'', defaultValue = JUndefined, raw = Some ''undefined''\<rparr>,
      [''k'' \<mapsto> ''undefined''])"
  by (simp add: initialize_def useState_raw_def getItem_def setItem_def truthy_def nullish_or_def Let_def)

text \<open>
  C6. Initialisation for a key that holds the empty string: the empty string is
  falsy, so the code takes the branch of the missing value and overwrites the
  stored string with the text of the default value.
\<close>

theorem initialize_on_empty_string:
  "initialize (useState_raw \<lparr>name = ''k'', defaultValue = JString ''hello''\<rparr>) [''k'' \<mapsto> '''']
     = (\<lparr>name = ''k'', defaultValue = JString ''hello'', raw = Some ''hello''\<rparr>,
        [''k'' \<mapsto> ''hello''])"
  by (simp add: initialize_def useState_raw_def getItem_def setItem_def truthy_def nullish_or_def Let_def)



text \<open>
  C10. A read of a cell whose \<^verbatim>\<open>raw\<close> is still \<^verbatim>\<open>undefined\<close>, as \<^verbatim>\<open>useState\<close> leaves
  it before the effect has run, throws the inconsistency error whatever the storage
  holds: the snapshot of the storage is always a string. The calculation throws,
  and no cache the hook can hold has a value for an unset \<^verbatim>\<open>raw\<close>, so the read
  through the cache throws as well.
\<close>

theorem read_before_initialize:
  "calculateValue (c\<lparr>raw := None\<rparr>) ls = Inl inconsistency
   \<and> calculateValue (useState_raw config) ls = Inl inconsistency
   \<and> fst (getter None (c\<lparr>raw := None\<rparr>) ls) = Inl inconsistency
   \<and> fst (getter None (useState_raw config) ls) = Inl inconsistency
   \<and> (memo_valid memo \<longrightarrow>
        fst (getter memo (c\<lparr>raw := None\<rparr>) ls) = Inl inconsistency
        \<and> fst (getter memo (useState_raw config) ls) = Inl inconsistency)"
proof -
  have r: "raw (c\<lparr>raw := None\<rparr>) = None" "raw (useState_raw config) = None"
    by (simp_all add: useState_raw_def)
  from getter_unset [OF _ r(1)] getter_unset [OF _ r(2)] memo_valid_None
       calculateValue_unset [OF r(1)] calculateValue_unset [OF r(2)]
  show ?thesis by simp
qed

theorem read_before_initialize_witness:
  "fst (getter (Some ((Some ''1'', ''k''), JNumber (Dec 1 0)))
         (useState_raw \<lparr>name = ''k'', defaultValue = JUndefined\<rparr>) [''k'' \<mapsto> ''1''])
     = Inl inconsistency"
proof -
  have "memo_valid (Some ((Some ''1'', ''k''), JNumber (Dec 1 0)))"
    by (simp add: memo_valid_def parseString_one)
  with read_before_initialize [of "useState_raw \<lparr>name = ''k'', defaultValue = JUndefined\<rparr>"
         "[''k'' \<mapsto> ''1'']" "\<lparr>name = ''k'', defaultValue = JUndefined\<rparr>"
         "Some ((Some ''1'', ''k''), JNumber (Dec 1 0))"]
  show ?thesis by simp
qed

section \<open>The shared context, unprovided\<close>

text \<open>
  C8. With no provider around it, \<open>useStorageContext\<close> returns the default of the
  context, the empty tuple; the hook has no path that throws.
\<close>

theorem useStorageContext_unprovided: "useStorageContext [] = EmptyTuple"
  by (simp add: useStorageContext_def useContext_def StorageContext_def createContext_def)

text \<open>Inside a provider the hook answers the pair the nearest provider was given.\<close>

lemma useStorageContext_provided:
  "useStorageContext (StorageProvider g s enclosing) = Tuple g s"
  by (simp add: useStorageContext_def useContext_def StorageProvider_def)

end
